theory Spec2Isabelle
  imports Main "HOL-Library.Word"
begin

section \<open>The values that reach \<open>simulate_swift_sanitize\<close>\<close>

text \<open>
  The function under study is the nested function \<open>simulate_swift_sanitize\<close> of
  \<open>demonstrate_yaml_fix.py\<close> (lines 61 to 81). It dispatches on the runtime type of its
  argument with a chain of \<open>isinstance\<close> tests: \<open>datetime\<close>, \<open>bytes\<close>, \<open>Path\<close>,
  \<open>dict\<close>, \<open>list\<close>, and a final \<open>else\<close> that returns the object as it is.

  The Python objects it can be handed are modelled by one datatype with one constructor
  for each kind the specification names: text, integer, floating-point number, boolean,
  null, Instant (\<open>datetime\<close>), ByteBlob (\<open>bytes\<close>), FileLocation (\<open>Path\<close>), Mapping
  (\<open>dict\<close>) and Sequence (\<open>list\<close>).
\<close>

subsection \<open>Instants: \<open>datetime.datetime\<close>\<close>

text \<open>
  A \<open>datetime\<close> object carries its calendar fields and, when it is aware, a \<open>tzinfo\<close>.
  The only thing \<open>isoformat\<close> asks of the \<open>tzinfo\<close> is \<open>utcoffset()\<close>, so the record
  keeps that result: \<open>None\<close> for a naive object, otherwise the offset in microseconds
  (a \<open>timedelta\<close> strictly between minus and plus one day).
\<close>

record datetime =
  year :: nat
  month :: nat
  day :: nat
  hour :: nat
  minute :: nat
  second :: nat
  microsecond :: nat
  utcoffset :: "int option"

text \<open>The ranges the \<open>datetime\<close> constructor enforces (the day only up to 31 here).\<close>

definition valid_datetime :: "datetime \<Rightarrow> bool" where
  "valid_datetime d =
     (1 \<le> year d \<and> year d \<le> 9999 \<and> 1 \<le> month d \<and> month d \<le> 12 \<and>
      1 \<le> day d \<and> day d \<le> 31 \<and> hour d < 24 \<and> minute d < 60 \<and> second d < 60 \<and>
      microsecond d < 1000000 \<and>
      (case utcoffset d of None \<Rightarrow> True
       | Some off \<Rightarrow> - 86400000000 < off \<and> off < 86400000000))"

text \<open>Decimal digits of a natural number, most significant first.\<close>

definition digit_char :: "nat \<Rightarrow> char" where
  "digit_char n = ''0123456789'' ! (n mod 10)"

fun decimal :: "nat \<Rightarrow> string" where
  "decimal n = (if n < 10 then [digit_char n] else decimal (n div 10) @ [digit_char (n mod 10)])"

declare decimal.simps [simp del]

text \<open>Python's \<open>"%0wd" % n\<close> for a non-negative \<open>n\<close>: zeros are added on the left up to
  width \<open>w\<close>; a longer number is not cut.\<close>

definition zero_pad :: "nat \<Rightarrow> nat \<Rightarrow> string" where
  "zero_pad w n = replicate (w - length (decimal n)) (CHR ''0'') @ decimal n"

text \<open>\<open>_format_time\<close> with \<open>timespec='auto'\<close>: the fraction is printed only when the
  microsecond field is not zero.\<close>

definition format_time :: "nat \<Rightarrow> nat \<Rightarrow> nat \<Rightarrow> nat \<Rightarrow> string" where
  "format_time hh mm ss us =
     zero_pad 2 hh @ '':'' @ zero_pad 2 mm @ '':'' @ zero_pad 2 ss @
     (if us = 0 then [] else ''.'' @ zero_pad 6 us)"

text \<open>\<open>_format_offset\<close>: nothing for a naive object; otherwise sign, hours and minutes,
  then seconds and microseconds of the offset only when they are not zero.\<close>

definition format_offset :: "int option \<Rightarrow> string" where
  "format_offset off =
     (case off of
        None \<Rightarrow> []
      | Some delta \<Rightarrow>
          (let a = nat \<bar>delta\<bar>;
               hh = a div 3600000000;
               r = a mod 3600000000;
               mm = r div 60000000;
               ss = r mod 60000000
           in (if delta < 0 then ''-'' else ''+'') @ zero_pad 2 hh @ '':'' @ zero_pad 2 mm @
              (if ss = 0 then []
               else '':'' @ zero_pad 2 (ss div 1000000) @
                    (if ss mod 1000000 = 0 then [] else ''.'' @ zero_pad 6 (ss mod 1000000)))))"

text \<open>\<open>datetime.isoformat()\<close> with its default separator \<open>T\<close>.\<close>

definition isoformat :: "datetime \<Rightarrow> string" where
  "isoformat d =
     zero_pad 4 (year d) @ ''-'' @ zero_pad 2 (month d) @ ''-'' @ zero_pad 2 (day d) @ ''T'' @
     format_time (hour d) (minute d) (second d) (microsecond d) @
     format_offset (utcoffset d)"

subsection \<open>Byte blobs: \<open>bytes\<close> and \<open>base64.b64encode\<close>\<close>

type_synonym byte = "8 word"

definition b64_alphabet :: string where
  "b64_alphabet = ''ABCDEFGHIJKLMNOPQRSTUVWXYZabcdefghijklmnopqrstuvwxyz0123456789+/''"

definition b64_char :: "nat \<Rightarrow> char" where
  "b64_char i = b64_alphabet ! (i mod 64)"

text \<open>
  \<open>base64.b64encode(obj).decode('utf-8')\<close>: every three bytes give four characters of
  the standard alphabet; a last group of one or two bytes is filled with zero bits and
  closed with \<open>=\<close> signs. No line break is ever produced (\<open>b64encode\<close> calls
  \<open>binascii.b2a_base64\<close> with \<open>newline=False\<close>). The bytes produced are ASCII, so
  decoding them as UTF-8 gives the same characters.
\<close>

fun b64encode :: "byte list \<Rightarrow> string" where
  "b64encode [] = []"
| "b64encode [x] =
     [b64_char (unat x div 4), b64_char (unat x mod 4 * 16), CHR ''='', CHR ''='']"
| "b64encode [x, y] =
     [b64_char (unat x div 4), b64_char (unat x mod 4 * 16 + unat y div 16),
      b64_char (unat y mod 16 * 4), CHR ''='']"
| "b64encode (x # y # z # rest) =
     [b64_char (unat x div 4), b64_char (unat x mod 4 * 16 + unat y div 16),
      b64_char (unat y mod 16 * 4 + unat z div 64), b64_char (unat z mod 64)] @
     b64encode rest"

text \<open>
  The decoder is not part of the scripts. It is the decoding of RFC 4648, section 4,
  written out so that the round trip can be stated: the text is read in groups of four
  characters of the alphabet, each group giving three bytes; only the last group may end
  in one or two \<open>=\<close> signs and then gives two bytes or one. Anything else is rejected.
\<close>

definition b64_index :: "char \<Rightarrow> nat option" where
  "b64_index c = map_of (zip b64_alphabet [0..<64]) c"

definition byte_of :: "nat \<Rightarrow> byte" where
  "byte_of n = of_nat n"

fun b64decode :: "string \<Rightarrow> byte list option" where
  "b64decode [] = Some []"
| "b64decode (c1 # c2 # c3 # c4 # rest) =
     (case (b64_index c1, b64_index c2) of
        (Some i1, Some i2) \<Rightarrow>
          if c3 = CHR ''='' then
            (if c4 = CHR ''='' \<and> rest = [] then Some [byte_of (i1 * 4 + i2 div 16)] else None)
          else
            (case b64_index c3 of
               None \<Rightarrow> None
             | Some i3 \<Rightarrow>
                 if c4 = CHR ''='' then
                   (if rest = []
                    then Some [byte_of (i1 * 4 + i2 div 16), byte_of (i2 mod 16 * 16 + i3 div 4)]
                    else None)
                 else
                   (case b64_index c4 of
                      None \<Rightarrow> None
                    | Some i4 \<Rightarrow>
                        (case b64decode rest of
                           None \<Rightarrow> None
                         | Some bs \<Rightarrow>
                             Some (byte_of (i1 * 4 + i2 div 16) #
                                   byte_of (i2 mod 16 * 16 + i3 div 4) #
                                   byte_of (i3 mod 4 * 64 + i4) # bs))))
      | _ \<Rightarrow> None)"
| "b64decode s = None"

text \<open>The number of \<open>=\<close> signs RFC 4648 asks for after \<open>n\<close> bytes.\<close>

definition b64_padding :: "nat \<Rightarrow> nat" where
  "b64_padding n = (3 - n mod 3) mod 3"

subsection \<open>File locations: \<open>pathlib.Path\<close>\<close>

text \<open>
  A \<open>Path\<close> object on the platform of the scripts (their paths are POSIX paths) holds a
  root (empty for a relative path, otherwise \<open>/\<close> or \<open>//\<close>) and the list of its
  components. \<open>str\<close> of it is the root followed by the components joined with \<open>/\<close>, or
  \<open>.\<close> when that is empty. Nothing is read from the file system.
\<close>

record posix_path =
  path_root :: string
  path_tail :: "string list"

fun join_sep :: "string list \<Rightarrow> string" where
  "join_sep [] = []"
| "join_sep [c] = c"
| "join_sep (c # cs) = c @ ''/'' @ join_sep cs"

definition path_str :: "posix_path \<Rightarrow> string" where
  "path_str p =
     (let s = path_root p @ join_sep (path_tail p) in if s = [] then ''.'' else s)"

subsection \<open>The value tree\<close>

text \<open>
  A \<open>dict\<close> is the list of its items in insertion order, which is the order \<open>items()\<close>
  yields them in; a \<open>float\<close> is carried as its 64 bits, since the function never looks
  inside one.
\<close>

datatype pyval =
    PyStr string
  | PyInt int
  | PyFloat "64 word"
  | PyBool bool
  | PyNone
  | PyDatetime datetime
  | PyBytes "byte list"
  | PyPath posix_path
  | PyDict "(pyval \<times> pyval) list"
  | PyList "pyval list"

section \<open>The sanitizer\<close>

text \<open>
  One equation for each branch of the source, in the source's order. The dict
  comprehension visits the items in order and stores \<open>key\<close> with the sanitized value;
  the keys of a dict are pairwise different, so each item of the input gives one item of
  the output, at the same position. The list comprehension is \<open>map\<close>.
\<close>

fun simulate_swift_sanitize :: "pyval \<Rightarrow> pyval" where
  "simulate_swift_sanitize (PyDatetime obj) = PyStr (isoformat obj @ ''Z'')"
| "simulate_swift_sanitize (PyBytes obj) = PyStr (b64encode obj)"
| "simulate_swift_sanitize (PyPath obj) = PyStr (path_str obj)"
| "simulate_swift_sanitize (PyDict obj) =
     PyDict (map (\<lambda>(key, val). (key, simulate_swift_sanitize val)) obj)"
| "simulate_swift_sanitize (PyList obj) = PyList (map simulate_swift_sanitize obj)"
| "simulate_swift_sanitize obj = obj"

text \<open>
  The same function with the interpreter's call stack made explicit: the first argument
  is the number of nested calls still allowed. A call made with none left is Python's
  \<open>RecursionError\<close>; the source has no \<open>raise\<close> of its own, and none of the three
  conversions can fail on an object of the type its branch has tested. A comprehension
  stops at the first element whose call raises.
\<close>

datatype error = RecursionError

fun map_result :: "('a \<Rightarrow> error + 'b) \<Rightarrow> 'a list \<Rightarrow> error + 'b list" where
  "map_result f [] = Inr []"
| "map_result f (x # xs) =
     (case f x of
        Inl e \<Rightarrow> Inl e
      | Inr y \<Rightarrow> (case map_result f xs of Inl e \<Rightarrow> Inl e | Inr ys \<Rightarrow> Inr (y # ys)))"

fun sanitize_within :: "nat \<Rightarrow> pyval \<Rightarrow> error + pyval" where
  "sanitize_within 0 obj = Inl RecursionError"
| "sanitize_within (Suc n) (PyDatetime obj) = Inr (PyStr (isoformat obj @ ''Z''))"
| "sanitize_within (Suc n) (PyBytes obj) = Inr (PyStr (b64encode obj))"
| "sanitize_within (Suc n) (PyPath obj) = Inr (PyStr (path_str obj))"
| "sanitize_within (Suc n) (PyDict obj) =
     (case map_result (\<lambda>(key, val). case sanitize_within n val of
                                   Inl e \<Rightarrow> Inl e | Inr r \<Rightarrow> Inr (key, r)) obj of
        Inl e \<Rightarrow> Inl e
      | Inr items \<Rightarrow> Inr (PyDict items))"
| "sanitize_within (Suc n) (PyList obj) =
     (case map_result (sanitize_within n) obj of
        Inl e \<Rightarrow> Inl e
      | Inr items \<Rightarrow> Inr (PyList items))"
| "sanitize_within (Suc n) obj = Inr obj"

text \<open>How deeply containers are nested in a value: 0 for a scalar.\<close>

fun nesting :: "pyval \<Rightarrow> nat" where
  "nesting (PyDict obj) = Suc (foldr (\<lambda>(key, val) m. max (nesting val) m) obj 0)"
| "nesting (PyList obj) = Suc (foldr (\<lambda>x m. max (nesting x) m) obj 0)"
| "nesting obj = 0"

section \<open>The vocabulary of the specification\<close>

text \<open>
  The specification's \<open>Value\<close> is \<open>Scalar | Mapping<Text, Value> | Sequence<Value>\<close>: a
  tree all of whose mapping keys are text. Its \<open>SafeValue\<close> is a \<open>Value\<close> none of whose
  scalar leaves is an Instant, a ByteBlob or a FileLocation. A Python dict accepts any
  hashable key, so the datatype above is wider than \<open>Value\<close>, and \<open>is_Value\<close> cuts it
  down.
\<close>

fun is_text :: "pyval \<Rightarrow> bool" where
  "is_text (PyStr s) = True"
| "is_text obj = False"

fun is_scalar :: "pyval \<Rightarrow> bool" where
  "is_scalar (PyDict obj) = False"
| "is_scalar (PyList obj) = False"
| "is_scalar obj = True"

fun leaves_safe :: "pyval \<Rightarrow> bool" where
  "leaves_safe (PyDatetime obj) = False"
| "leaves_safe (PyBytes obj) = False"
| "leaves_safe (PyPath obj) = False"
| "leaves_safe (PyDict obj) = list_all (\<lambda>(key, val). leaves_safe val) obj"
| "leaves_safe (PyList obj) = list_all leaves_safe obj"
| "leaves_safe obj = True"

fun text_keys :: "pyval \<Rightarrow> bool" where
  "text_keys (PyDict obj) = list_all (\<lambda>(key, val). is_text key \<and> text_keys val) obj"
| "text_keys (PyList obj) = list_all text_keys obj"
| "text_keys obj = True"

definition is_Value :: "pyval \<Rightarrow> bool" where
  "is_Value v = text_keys v"

definition is_SafeValue :: "pyval \<Rightarrow> bool" where
  "is_SafeValue v = (text_keys v \<and> leaves_safe v)"

text \<open>
  Two trees have the same shape when they agree on every container: a mapping stands
  against a mapping with the same keys in the same order, a sequence against a sequence
  of the same length, a scalar against a scalar, and so on below, position by position.
\<close>

fun same_shape :: "pyval \<Rightarrow> pyval \<Rightarrow> bool" where
  "same_shape (PyDict a) w =
     (case w of
        PyDict b \<Rightarrow> list_all2 (\<lambda>(key, val) (key', val'). key = key' \<and> same_shape val val') a b
      | _ \<Rightarrow> False)"
| "same_shape (PyList a) w =
     (case w of PyList b \<Rightarrow> list_all2 same_shape a b | _ \<Rightarrow> False)"
| "same_shape v w = is_scalar w"

text \<open>
  The shape of a text against a template: \<open>d\<close> in the template stands for one decimal
  digit, every other character for itself. The specification's \<open>YYYY-MM-DDTHH:MM:SSZ\<close>
  is the template \<open>dddd-dd-ddTdd:dd:ddZ\<close>.
\<close>

definition is_digit :: "char \<Rightarrow> bool" where
  "is_digit c = (c \<in> set ''0123456789'')"

fun matches :: "string \<Rightarrow> string \<Rightarrow> bool" where
  "matches [] [] = True"
| "matches (p # ps) (c # cs) = ((if p = CHR ''d'' then is_digit c else c = p) \<and> matches ps cs)"
| "matches ps cs = False"

text \<open>
  Python's \<open>s.split('/')\<close>, to read the components back from a rendered path, and the
  paths \<open>pathlib\<close> can build: the root is one of three, and no component is empty or
  holds a separator.
\<close>

fun split_sep :: "string \<Rightarrow> string list" where
  "split_sep [] = [[]]"
| "split_sep (c # cs) =
     (if c = CHR ''/'' then [] # split_sep cs
      else (c # hd (split_sep cs)) # tl (split_sep cs))"

definition valid_path :: "posix_path \<Rightarrow> bool" where
  "valid_path p =
     (path_root p \<in> set ['''', ''/'', ''//''] \<and>
      list_all (\<lambda>c. c \<noteq> [] \<and> CHR ''/'' \<notin> set c) (path_tail p))"









section \<open>Properties\<close>

subsection \<open>Recursion over the tree\<close>

lemma sanitize_leaves_safe: "leaves_safe (simulate_swift_sanitize v)"
  by (induction v rule: simulate_swift_sanitize.induct) (auto simp: list_all_iff)

lemma sanitize_text_keys: "text_keys v \<Longrightarrow> text_keys (simulate_swift_sanitize v)"
  by (induction v rule: simulate_swift_sanitize.induct) (auto simp: list_all_iff)

lemma sanitize_fixes_safe: "leaves_safe v \<Longrightarrow> simulate_swift_sanitize v = v"
proof (induction v rule: simulate_swift_sanitize.induct)
  case (4 obj)
  then have "map (\<lambda>(key, val). (key, simulate_swift_sanitize val)) obj = map (\<lambda>x. x) obj"
    by (intro map_cong) (auto simp: list_all_iff)
  then show ?case by simp
next
  case (5 obj)
  then have "map simulate_swift_sanitize obj = map (\<lambda>x. x) obj"
    by (intro map_cong) (auto simp: list_all_iff)
  then show ?case by simp
qed simp_all


lemma same_shape_dict:
  "same_shape (PyDict a) w \<Longrightarrow> \<exists>b. w = PyDict b \<and> map fst b = map fst a"
proof (cases w)
  case (PyDict b)
  assume "same_shape (PyDict a) w"
  with PyDict have "list_all2 (\<lambda>x y. fst x = fst y) a b"
    by (auto simp: case_prod_unfold elim: list_all2_mono)
  then have "map fst b = map fst a"
    by (induction a b rule: list_all2_induct) simp_all
  with PyDict show ?thesis by simp
qed simp_all

lemma same_shape_list:
  "same_shape (PyList a) w \<Longrightarrow> \<exists>b. w = PyList b \<and> length b = length a"
  by (cases w) (auto dest: list_all2_lengthD)

subsection \<open>Type closure\<close>

text \<open>
  Claim C1. For every value, no scalar leaf of the result is an Instant, a ByteBlob or a
  FileLocation: each leaf is text, a number, a boolean or null. For every \<open>Value\<close> of the
  specification (mapping keys are text), the result is a \<open>SafeValue\<close>: its keys are text
  as well, so no node of the output tree is of one of the three kinds.
\<close>

theorem sanitize_type_closure:
  "leaves_safe (simulate_swift_sanitize v) \<and>
   (is_Value v \<longrightarrow> is_SafeValue (simulate_swift_sanitize v))"
  by (simp add: is_Value_def is_SafeValue_def sanitize_leaves_safe sanitize_text_keys)

theorem sanitize_type_closure_witness:
  "is_Value (PyDict [(PyStr ''when'', PyDatetime \<lparr>year = 2024, month = 1, day = 15, hour = 10,
       minute = 30, second = 0, microsecond = 0, utcoffset = None\<rparr>),
     (PyStr ''items'', PyList [PyBytes [97, 98],
       PyPath \<lparr>path_root = ''/'', path_tail = [''tmp'']\<rparr>, PyNone])]) \<and>
   is_SafeValue (simulate_swift_sanitize
     (PyDict [(PyStr ''when'', PyDatetime \<lparr>year = 2024, month = 1, day = 15, hour = 10,
       minute = 30, second = 0, microsecond = 0, utcoffset = None\<rparr>),
     (PyStr ''items'', PyList [PyBytes [97, 98],
       PyPath \<lparr>path_root = ''/'', path_tail = [''tmp'']\<rparr>, PyNone])]))"
  using sanitize_type_closure [of "PyDict [(PyStr ''when'', PyDatetime \<lparr>year = 2024, month = 1,
       day = 15, hour = 10, minute = 30, second = 0, microsecond = 0, utcoffset = None\<rparr>),
     (PyStr ''items'', PyList [PyBytes [97, 98],
       PyPath \<lparr>path_root = ''/'', path_tail = [''tmp'']\<rparr>, PyNone])]"]
  by (simp add: is_Value_def)

subsection \<open>Structure preservation\<close>



subsection \<open>Safe input is left as it is\<close>

text \<open>
  Claim C5. For every \<open>SafeValue\<close> \<open>v\<close> (a tree whose scalar leaves are text, numbers,
  booleans or null), the result is \<open>v\<close> itself; so every safe scalar, null among them,
  passes through unchanged.
\<close>

theorem sanitize_safe_unchanged: "is_SafeValue v \<Longrightarrow> simulate_swift_sanitize v = v"
  by (simp add: is_SafeValue_def sanitize_fixes_safe)

theorem sanitize_safe_unchanged_witness:
  "is_SafeValue (PyDict [(PyStr ''name'', PyStr ''Widget''), (PyStr ''count'', PyInt 3),
      (PyStr ''tags'', PyList [PyNone, PyBool True, PyFloat 0])]) \<and>
   simulate_swift_sanitize (PyDict [(PyStr ''name'', PyStr ''Widget''), (PyStr ''count'', PyInt 3),
      (PyStr ''tags'', PyList [PyNone, PyBool True, PyFloat 0])]) =
   PyDict [(PyStr ''name'', PyStr ''Widget''), (PyStr ''count'', PyInt 3),
      (PyStr ''tags'', PyList [PyNone, PyBool True, PyFloat 0])]"
proof -
  have h: "is_SafeValue (PyDict [(PyStr ''name'', PyStr ''Widget''), (PyStr ''count'', PyInt 3),
      (PyStr ''tags'', PyList [PyNone, PyBool True, PyFloat 0])])"
    by (simp add: is_SafeValue_def)
  show ?thesis using h sanitize_safe_unchanged [OF h] by simp
qed

subsection \<open>Mapping keys\<close>

text \<open>
  Claim C10. For every mapping, the keys of the result are the keys of the input, each
  copied unchanged and in place, and only the associated values are sanitized. A key that
  is not text, such as an Instant or a ByteBlob, therefore stays what it was.
\<close>

theorem sanitize_keys_untouched:
  "\<exists>items. simulate_swift_sanitize (PyDict obj) = PyDict items \<and>
      map fst items = map fst obj \<and>
      map snd items = map simulate_swift_sanitize (map snd obj)"
  by (auto simp: case_prod_unfold comp_def)

theorem sanitize_keys_untouched_witness:
  "\<exists>items. simulate_swift_sanitize
       (PyDict [(PyBytes [1], PyBytes [1]),
                (PyDatetime \<lparr>year = 2024, month = 1, day = 15, hour = 10, minute = 30,
                   second = 0, microsecond = 0, utcoffset = None\<rparr>, PyInt 0)]) = PyDict items \<and>
     map fst items =
       [PyBytes [1],
        PyDatetime \<lparr>year = 2024, month = 1, day = 15, hour = 10, minute = 30,
          second = 0, microsecond = 0, utcoffset = None\<rparr>]"
  using sanitize_keys_untouched
    [of "[(PyBytes [1], PyBytes [1]),
          (PyDatetime \<lparr>year = 2024, month = 1, day = 15, hour = 10, minute = 30,
             second = 0, microsecond = 0, utcoffset = None\<rparr>, PyInt 0)]"]
  by simp

subsection \<open>Base64\<close>

lemma b64_alphabet_length: "length b64_alphabet = 64"
  by (simp add: b64_alphabet_def)

lemma b64_alphabet_distinct: "distinct b64_alphabet"
  by (simp add: b64_alphabet_def)

lemma b64_index_char: "i < 64 \<Longrightarrow> b64_index (b64_char i) = Some i"
  using map_of_zip_nth [of b64_alphabet "[0..<64]" i]
  by (simp add: b64_index_def b64_char_def b64_alphabet_length b64_alphabet_distinct)

lemma b64_char_in_alphabet: "b64_char i \<in> set b64_alphabet"
  by (simp add: b64_char_def b64_alphabet_length)

lemma pad_not_in_alphabet: "CHR ''='' \<notin> set b64_alphabet"
  by (simp add: b64_alphabet_def)

lemma newline_not_in_alphabet: "CHR 0x0A \<notin> set b64_alphabet"
  by (simp add: b64_alphabet_def)

lemma b64_char_not_pad: "b64_char i \<noteq> CHR ''=''"
  using b64_char_in_alphabet [of i] pad_not_in_alphabet by metis

lemma unat_byte_less: "unat (x :: byte) < 256"
  using unsigned_less [of x] by simp

lemma byte_of_unat: "byte_of (unat x) = x"
  by (simp add: byte_of_def)

text \<open>The three bytes of a group, put together again from its four sextets.\<close>

lemma byte_first: "byte_of (unat x div 4 * 4 + (unat x mod 4 * 16 + k) div 16) = x" if "k < 16"
proof -
  have "unat x div 4 * 4 + (unat x mod 4 * 16 + k) div 16 = unat x" using that by simp
  then show ?thesis by (simp only: byte_of_unat)
qed

lemma byte_second:
  "byte_of ((unat x mod 4 * 16 + unat y div 16) mod 16 * 16 + (unat y mod 16 * 4 + k) div 4) = y"
  if "k < 4"
proof -
  have a: "(unat x mod 4 * 16 + unat y div 16) mod 16 = unat y div 16"
    using unat_byte_less [of y] by simp
  have b: "(unat y mod 16 * 4 + k) div 4 = unat y mod 16" using that by simp
  have "unat y div 16 * 16 + unat y mod 16 = unat y" by simp
  then show ?thesis by (simp only: a b byte_of_unat)
qed

lemma byte_third:
  "byte_of ((unat y mod 16 * 4 + unat z div 64) mod 4 * 64 + unat z mod 64) = z"
proof -
  have a: "(unat y mod 16 * 4 + unat z div 64) mod 4 = unat z div 64"
    using unat_byte_less [of z] by simp
  have "unat z div 64 * 64 + unat z mod 64 = unat z" by simp
  then show ?thesis by (simp only: a byte_of_unat)
qed

lemma sextet_bounds:
  "unat (x :: byte) div 4 < 64"
  "unat (x :: byte) mod 4 * 16 + unat (y :: byte) div 16 < 64"
  "unat (x :: byte) mod 4 * 16 < 64"
  "unat (y :: byte) mod 16 * 4 + unat (z :: byte) div 64 < 64"
  "unat (y :: byte) mod 16 * 4 < 64"
  "unat (z :: byte) mod 64 < 64"
  using unat_byte_less [of x] unat_byte_less [of y] unat_byte_less [of z] by simp_all

lemma b64decode_b64encode: "b64decode (b64encode bs) = Some bs"
proof (induction bs rule: b64encode.induct)
  case 1
  show ?case by simp
next
  case (2 x)
  show ?case
    using byte_first [of 0 x] by (simp add: b64_index_char sextet_bounds b64_char_not_pad)
next
  case (3 x y)
  show ?case
    using byte_first [of "unat y div 16" x] byte_second [of 0 x y] unat_byte_less [of y]
    by (simp add: b64_index_char sextet_bounds b64_char_not_pad)
next
  case (4 x y z rest)
  then show ?case
    using byte_first [of "unat y div 16" x] byte_second [of "unat z div 64" x y]
      byte_third [of y z] unat_byte_less [of y] unat_byte_less [of z]
    by (simp add: b64_index_char sextet_bounds b64_char_not_pad)
qed

lemma b64encode_length: "length (b64encode bs) = 4 * ((length bs + 2) div 3)"
proof (induction bs rule: b64encode.induct)
  case (4 x y z rest)
  have "(length (x # y # z # rest) + 2) div 3 = Suc ((length rest + 2) div 3)"
    by simp
  with 4 show ?case by simp
qed simp_all

lemma b64encode_form:
  "\<exists>body. b64encode bs = body @ replicate (b64_padding (length bs)) (CHR ''='') \<and>
          set body \<subseteq> set b64_alphabet"
proof (induction bs rule: b64encode.induct)
  case 1
  show ?case by (simp add: b64_padding_def)
next
  case (2 x)
  have "b64encode [x] = [b64_char (unat x div 4), b64_char (unat x mod 4 * 16)] @
      replicate (b64_padding (length [x])) (CHR ''='')"
    by (simp add: b64_padding_def numeral_2_eq_2)
  then show ?case using b64_char_in_alphabet by (intro exI conjI) auto
next
  case (3 x y)
  have "b64encode [x, y] =
      [b64_char (unat x div 4), b64_char (unat x mod 4 * 16 + unat y div 16),
       b64_char (unat y mod 16 * 4)] @ replicate (b64_padding (length [x, y])) (CHR ''='')"
    by (simp add: b64_padding_def)
  then show ?case using b64_char_in_alphabet by (intro exI conjI) auto
next
  case (4 x y z rest)
  then obtain body
    where b: "b64encode rest = body @ replicate (b64_padding (length rest)) (CHR ''='')"
      and s: "set body \<subseteq> set b64_alphabet" by blast
  have p: "b64_padding (length (x # y # z # rest)) = b64_padding (length rest)"
    by (simp add: b64_padding_def)
  have "b64encode (x # y # z # rest) =
     ([b64_char (unat x div 4), b64_char (unat x mod 4 * 16 + unat y div 16),
      b64_char (unat y mod 16 * 4 + unat z div 64), b64_char (unat z mod 64)] @ body) @
      replicate (b64_padding (length (x # y # z # rest))) (CHR ''='')"
    unfolding p using b by simp
  moreover have "set ([b64_char (unat x div 4), b64_char (unat x mod 4 * 16 + unat y div 16),
      b64_char (unat y mod 16 * 4 + unat z div 64), b64_char (unat z mod 64)] @ body)
      \<subseteq> set b64_alphabet"
    using s b64_char_in_alphabet by auto
  ultimately show ?case by blast
qed

lemma b64encode_no_newline: "CHR 0x0A \<notin> set (b64encode bs)"
proof -
  obtain body where "b64encode bs = body @ replicate (b64_padding (length bs)) (CHR ''='')"
    and "set body \<subseteq> set b64_alphabet"
    using b64encode_form by blast
  then show ?thesis using newline_not_in_alphabet by auto
qed

text \<open>
  Claim C4. For every ByteBlob \<open>b\<close> the result is text in the base64 of RFC 4648: characters
  of the standard alphabet followed by the padding the length of \<open>b\<close> asks for, four
  characters for every three bytes begun, and no line break. Decoding that text gives
  \<open>b\<close> back, byte for byte.
\<close>

theorem sanitize_bytes_roundtrip:
  "\<exists>s body. simulate_swift_sanitize (PyBytes b) = PyStr s \<and>
      b64decode s = Some b \<and>
      s = body @ replicate (b64_padding (length b)) (CHR ''='') \<and>
      set body \<subseteq> set b64_alphabet \<and>
      length s = 4 * ((length b + 2) div 3) \<and>
      CHR 0x0A \<notin> set s"
proof -
  obtain body where "b64encode b = body @ replicate (b64_padding (length b)) (CHR ''='')"
    and "set body \<subseteq> set b64_alphabet"
    using b64encode_form by blast
  then show ?thesis
    using b64decode_b64encode [of b] b64encode_length [of b] b64encode_no_newline [of b]
    by (intro exI [of _ "b64encode b"] exI [of _ body]) simp
qed

theorem sanitize_bytes_roundtrip_witness:
  "simulate_swift_sanitize (PyBytes [0, 1, 2, 255]) = PyStr ''AAEC/w=='' \<and>
   b64decode ''AAEC/w=='' = Some [0, 1, 2, 255]"
  using sanitize_bytes_roundtrip [of "[0, 1, 2, 255]"]
  by (auto simp: b64_char_def b64_alphabet_def)

subsection \<open>The text of an instant\<close>

lemma decimal_small: "n < 10 \<Longrightarrow> decimal n = [digit_char n]"
  by (simp add: decimal.simps)

lemma decimal_step: "10 \<le> n \<Longrightarrow> decimal n = decimal (n div 10) @ [digit_char (n mod 10)]"
  by (subst decimal.simps) simp

lemma is_digit_digit_char: "is_digit (digit_char n)"
proof -
  have "n mod 10 < length ''0123456789''" by simp
  then have "''0123456789'' ! (n mod 10) \<in> set ''0123456789''" by (rule nth_mem)
  then show ?thesis by (simp only: is_digit_def digit_char_def)
qed

lemma is_digit_zero: "is_digit (CHR ''0'')"
  by (simp add: is_digit_def)

lemma decimal_digits: "list_all is_digit (decimal n)"
proof (induction n rule: decimal.induct)
  case (1 n)
  show ?case
  proof (cases "n < 10")
    case True
    then show ?thesis by (simp add: decimal_small is_digit_digit_char)
  next
    case False
    with 1 show ?thesis by (simp add: decimal_step is_digit_digit_char)
  qed
qed

lemma decimal_length: "0 < w \<Longrightarrow> n < 10 ^ w \<Longrightarrow> length (decimal n) \<le> w"
proof (induction n arbitrary: w rule: decimal.induct)
  case (1 n)
  show ?case
  proof (cases "n < 10")
    case True
    with 1 show ?thesis by (simp add: decimal_small Suc_leI)
  next
    case False
    then obtain k where w: "w = Suc k" using "1.prems" by (cases w) auto
    with False "1.prems" have k: "0 < k" by (cases k) auto
    from w "1.prems" have "n div 10 < 10 ^ k"
      by (simp add: less_mult_imp_div_less mult.commute)
    with 1 False k have "length (decimal (n div 10)) \<le> k" by simp
    with False w show ?thesis by (simp add: decimal_step)
  qed
qed

lemma decimal_nonempty: "decimal n \<noteq> []"
  by (subst decimal.simps) simp

lemma zero_pad_digits: "list_all is_digit (zero_pad w n)"
  using decimal_digits [of n] by (auto simp: zero_pad_def is_digit_zero list_all_iff)

lemma zero_pad_length: "0 < w \<Longrightarrow> n < 10 ^ w \<Longrightarrow> length (zero_pad w n) = w"
  using decimal_length [of w n] by (simp add: zero_pad_def)

lemma zero_pad_length_ge: "w \<le> length (zero_pad w n)"
  by (simp add: zero_pad_def)

lemma matches_length: "matches p s \<Longrightarrow> length s = length p"
  by (induction p s rule: matches.induct) simp_all

lemma matches_append:
  "length p = length s \<Longrightarrow> matches (p @ p') (s @ s') = (matches p s \<and> matches p' s')"
  by (induction p s rule: list_induct2) auto

lemma matches_digits:
  "list_all is_digit s \<Longrightarrow> matches (replicate (length s) (CHR ''d'')) s"
  by (induction s) simp_all

lemma matches_zero_pad:
  "0 < w \<Longrightarrow> n < 10 ^ w \<Longrightarrow> matches (replicate w (CHR ''d'')) (zero_pad w n)"
  using matches_digits [OF zero_pad_digits, of w n] by (simp add: zero_pad_length)

lemma isoformat_naive_shape:
  assumes "valid_datetime d" and "utcoffset d = None"
  shows "matches (if microsecond d = 0 then ''dddd-dd-ddTdd:dd:ddZ''
                  else ''dddd-dd-ddTdd:dd:dd.ddddddZ'') (isoformat d @ ''Z'')"
proof -
  let ?D = "\<lambda>w. replicate w (CHR ''d'')"
  from assms(1) have y: "matches (?D 4) (zero_pad 4 (year d))"
    and mo: "matches (?D 2) (zero_pad 2 (month d))"
    and da: "matches (?D 2) (zero_pad 2 (day d))"
    and h: "matches (?D 2) (zero_pad 2 (hour d))"
    and mi: "matches (?D 2) (zero_pad 2 (minute d))"
    and s: "matches (?D 2) (zero_pad 2 (second d))"
    and us: "matches (?D 6) (zero_pad 6 (microsecond d))"
    by (simp_all add: valid_datetime_def matches_zero_pad)
  have t1: "''dddd-dd-ddTdd:dd:ddZ'' =
      ?D 4 @ ''-'' @ ?D 2 @ ''-'' @ ?D 2 @ ''T'' @ ?D 2 @ '':'' @ ?D 2 @ '':'' @ ?D 2 @ ''Z''"
    by (simp add: eval_nat_numeral)
  have t2: "''dddd-dd-ddTdd:dd:dd.ddddddZ'' =
      ?D 4 @ ''-'' @ ?D 2 @ ''-'' @ ?D 2 @ ''T'' @ ?D 2 @ '':'' @ ?D 2 @ '':'' @ ?D 2 @ ''.'' @
      ?D 6 @ ''Z''"
    by (simp add: eval_nat_numeral)
  have date: "\<And>p' s'. matches (?D 4 @ ''-'' @ ?D 2 @ ''-'' @ ?D 2 @ ''T'' @ ?D 2 @ '':'' @ ?D 2 @ '':'' @ ?D 2 @ p')
      (zero_pad 4 (year d) @ ''-'' @ zero_pad 2 (month d) @ ''-'' @ zero_pad 2 (day d) @ ''T'' @
       zero_pad 2 (hour d) @ '':'' @ zero_pad 2 (minute d) @ '':'' @ zero_pad 2 (second d) @ s')
      = matches p' s'"
    using y mo da h mi s
    by (simp add: matches_append matches_length)
  show ?thesis
  proof (cases "microsecond d = 0")
    case True
    then have iso: "isoformat d @ ''Z'' =
        zero_pad 4 (year d) @ ''-'' @ zero_pad 2 (month d) @ ''-'' @ zero_pad 2 (day d) @ ''T'' @
        zero_pad 2 (hour d) @ '':'' @ zero_pad 2 (minute d) @ '':'' @ zero_pad 2 (second d) @ ''Z''"
      by (simp add: isoformat_def format_time_def format_offset_def assms(2))
    have "matches ''Z'' ''Z''" by simp
    then have "matches ''dddd-dd-ddTdd:dd:ddZ'' (isoformat d @ ''Z'')"
      by (simp only: iso t1 date)
    with True show ?thesis by simp
  next
    case False
    then have iso: "isoformat d @ ''Z'' =
        zero_pad 4 (year d) @ ''-'' @ zero_pad 2 (month d) @ ''-'' @ zero_pad 2 (day d) @ ''T'' @
        zero_pad 2 (hour d) @ '':'' @ zero_pad 2 (minute d) @ '':'' @ zero_pad 2 (second d) @
        ''.'' @ zero_pad 6 (microsecond d) @ ''Z''"
      by (simp add: isoformat_def format_time_def format_offset_def assms(2))
    have "matches (''.'' @ ?D 6 @ ''Z'') (''.'' @ zero_pad 6 (microsecond d) @ ''Z'')"
      using us by (simp add: matches_append matches_length)
    then have "matches ''dddd-dd-ddTdd:dd:dd.ddddddZ'' (isoformat d @ ''Z'')"
      by (simp only: iso t2 date)
    with False show ?thesis by simp
  qed
qed

lemmas iso_eval = isoformat_def format_time_def format_offset_def zero_pad_def decimal_small
  decimal_step digit_char_def

text \<open>
  Claim C2, as the code has it. For every Instant the result is the text of \<open>isoformat()\<close>
  followed by the designator \<open>Z\<close>, which is appended unconditionally, whatever the offset
  or the sub-second precision of the instant. For a well-formed instant without an offset
  (the kind the scripts build and a property list is loaded into), that text has the
  shape \<open>YYYY-MM-DDTHH:MM:SSZ\<close> exactly when the microsecond field is zero; when it is
  not, six digits of fraction stand between the seconds and the designator.
\<close>

theorem sanitize_instant_text:
  "simulate_swift_sanitize (PyDatetime d) = PyStr (isoformat d @ ''Z'') \<and>
   (valid_datetime d \<and> utcoffset d = None \<longrightarrow>
      (matches ''dddd-dd-ddTdd:dd:ddZ'' (isoformat d @ ''Z'') \<longleftrightarrow> microsecond d = 0) \<and>
      (matches ''dddd-dd-ddTdd:dd:dd.ddddddZ'' (isoformat d @ ''Z'') \<longleftrightarrow> microsecond d \<noteq> 0))"
proof -
  have "(matches ''dddd-dd-ddTdd:dd:ddZ'' (isoformat d @ ''Z'') \<longleftrightarrow> microsecond d = 0) \<and>
      (matches ''dddd-dd-ddTdd:dd:dd.ddddddZ'' (isoformat d @ ''Z'') \<longleftrightarrow> microsecond d \<noteq> 0)"
    if "valid_datetime d" and "utcoffset d = None"
  proof (cases "microsecond d = 0")
    case True
    with isoformat_naive_shape [OF that]
    have m: "matches ''dddd-dd-ddTdd:dd:ddZ'' (isoformat d @ ''Z'')" by simp
    from matches_length [OF m]
    have "\<not> matches ''dddd-dd-ddTdd:dd:dd.ddddddZ'' (isoformat d @ ''Z'')"
      by (auto dest: matches_length)
    with m True show ?thesis by simp
  next
    case False
    with isoformat_naive_shape [OF that]
    have m: "matches ''dddd-dd-ddTdd:dd:dd.ddddddZ'' (isoformat d @ ''Z'')" by simp
    from matches_length [OF m]
    have "\<not> matches ''dddd-dd-ddTdd:dd:ddZ'' (isoformat d @ ''Z'')"
      by (auto dest: matches_length)
    with m False show ?thesis by simp
  qed
  then show ?thesis by simp
qed

theorem sanitize_instant_text_witness:
  "valid_datetime \<lparr>year = 2024, month = 1, day = 15, hour = 10, minute = 30, second = 0,
      microsecond = 0, utcoffset = None\<rparr> \<and>
   simulate_swift_sanitize (PyDatetime \<lparr>year = 2024, month = 1, day = 15, hour = 10,
      minute = 30, second = 0, microsecond = 0, utcoffset = None\<rparr>) =
     PyStr ''2024-01-15T10:30:00Z'' \<and>
   matches ''dddd-dd-ddTdd:dd:ddZ'' ''2024-01-15T10:30:00Z''"
  using sanitize_instant_text [of "\<lparr>year = 2024, month = 1, day = 15, hour = 10, minute = 30,
      second = 0, microsecond = 0, utcoffset = None\<rparr>"]
  by (simp add: valid_datetime_def iso_eval)

text \<open>
  The claim as the specification words it asks for the shape \<open>YYYY-MM-DDTHH:MM:SSZ\<close> for
  every instant. An instant with a microsecond field that is not zero, as
  \<open>datetime.now()\<close> on line 30 of the script gives, is rendered with a fraction.
\<close>

theorem sanitize_instant_shape_counterexample:
  "simulate_swift_sanitize
     (PyDatetime \<lparr>year = 2024, month = 1, day = 15, hour = 10,
        minute = 30, second = 0, microsecond = 250000, utcoffset = None\<rparr>) =
     PyStr ''2024-01-15T10:30:00.250000Z'' \<and>
   \<not> matches ''dddd-dd-ddTdd:dd:ddZ'' ''2024-01-15T10:30:00.250000Z''"
  by (simp add: iso_eval is_digit_def)

text \<open>
  An instant that carries the offset zero is rendered with that offset, and the
  designator still follows it.
\<close>

lemma isoformat_aware_utc:
  "simulate_swift_sanitize
     (PyDatetime \<lparr>year = 2024, month = 1, day = 15, hour = 10,
        minute = 30, second = 0, microsecond = 0, utcoffset = Some 0\<rparr>) =
     PyStr ''2024-01-15T10:30:00+00:00Z''"
  by (simp add: iso_eval)

subsection \<open>Scenarios\<close>

text \<open>
  Claim C6. The mapping \<open>{"blob": b"\x00\x01\x02"}\<close> gives \<open>{"blob": "AAEC"}\<close>; the
  mapping \<open>{"when": datetime(2024, 1, 15, 10, 30, 0)}\<close>, the instant as the script writes
  it on line 34 and as a property list carries a UTC date, gives
  \<open>{"when": "2024-01-15T10:30:00Z"}\<close>; the empty mapping gives the empty mapping.
\<close>

theorem sanitize_scenarios:
  "simulate_swift_sanitize (PyDict [(PyStr ''blob'', PyBytes [0x00, 0x01, 0x02])]) =
     PyDict [(PyStr ''blob'', PyStr ''AAEC'')] \<and>
   simulate_swift_sanitize
     (PyDict [(PyStr ''when'', PyDatetime \<lparr>year = 2024, month = 1, day = 15, hour = 10,
        minute = 30, second = 0, microsecond = 0, utcoffset = None\<rparr>)]) =
     PyDict [(PyStr ''when'', PyStr ''2024-01-15T10:30:00Z'')] \<and>
   simulate_swift_sanitize (PyDict []) = PyDict []"
  by (simp add: iso_eval b64_char_def b64_alphabet_def)

subsection \<open>The text of a file location\<close>


lemma split_sep_no_sep: "CHR ''/'' \<notin> set a \<Longrightarrow> split_sep a = [a]"
  by (induction a) auto

lemma split_sep_append:
  "CHR ''/'' \<notin> set a \<Longrightarrow> split_sep (a @ CHR ''/'' # b) = a # split_sep b"
  by (induction a) auto

lemma split_sep_join_sep:
  "cs \<noteq> [] \<Longrightarrow> list_all (\<lambda>c. CHR ''/'' \<notin> set c) cs \<Longrightarrow> split_sep (join_sep cs) = cs"
proof (induction cs rule: join_sep.induct)
  case 1
  then show ?case by simp
next
  case (2 c)
  then show ?case by (simp add: split_sep_no_sep)
next
  case (3 c v va)
  then show ?case by (simp add: split_sep_append)
qed

lemma join_sep_nonempty: "cs \<noteq> [] \<Longrightarrow> list_all (\<lambda>c. c \<noteq> []) cs \<Longrightarrow> join_sep cs \<noteq> []"
  by (induction cs rule: join_sep.induct) simp_all


text \<open>
  Claim C8. For every FileLocation the result is the string form the object carries: its
  root followed by its components joined with \<open>/\<close>, or \<open>.\<close> for the empty relative
  path. Splitting the text after the root at the separators gives the components back
  exactly, so none has been resolved or dropped, \<open>..\<close> included. The function takes the
  object alone: no state of a file system is among its arguments.
\<close>


theorem sanitize_path_verbatim:
  "simulate_swift_sanitize (PyPath p) = PyStr (path_str p) \<and>
   (valid_path p \<and> path_tail p \<noteq> [] \<longrightarrow>
      (\<exists>rest. path_str p = path_root p @ rest \<and> split_sep rest = path_tail p)) \<and>
   (path_tail p = [] \<longrightarrow> path_str p = (if path_root p = [] then ''.'' else path_root p))"
proof -
  have "\<exists>rest. path_str p = path_root p @ rest \<and> split_sep rest = path_tail p"
    if v: "valid_path p" and t: "path_tail p \<noteq> []"
  proof -
    from v have a: "list_all (\<lambda>c. c \<noteq> []) (path_tail p)"
      and b: "list_all (\<lambda>c. CHR ''/'' \<notin> set c) (path_tail p)"
      by (simp_all add: valid_path_def list_all_iff)
    from t a have "join_sep (path_tail p) \<noteq> []" by (rule join_sep_nonempty)
    then have "path_str p = path_root p @ join_sep (path_tail p)"
      by (simp add: path_str_def Let_def)
    moreover from t b have "split_sep (join_sep (path_tail p)) = path_tail p"
      by (rule split_sep_join_sep)
    ultimately show ?thesis by blast
  qed
  moreover have "path_str p = (if path_root p = [] then ''.'' else path_root p)"
    if "path_tail p = []"
    using that by (simp add: path_str_def Let_def)
  ultimately show ?thesis by simp
qed

theorem sanitize_path_verbatim_witness:
  "valid_path \<lparr>path_root = ''/'', path_tail = [''srv'', ''..'', ''pkgs'', ''a.pkg'']\<rparr> \<and>
   simulate_swift_sanitize (PyPath \<lparr>path_root = ''/'', path_tail = [''srv'', ''..'', ''pkgs'', ''a.pkg'']\<rparr>) =
     PyStr ''/srv/../pkgs/a.pkg'' \<and>
   split_sep ''srv/../pkgs/a.pkg'' = [''srv'', ''..'', ''pkgs'', ''a.pkg'']"
  using sanitize_path_verbatim [of "\<lparr>path_root = ''/'', path_tail = [''srv'', ''..'', ''pkgs'', ''a.pkg'']\<rparr>"]
  by (simp add: valid_path_def path_str_def)


subsection \<open>Totality\<close>


lemma map_result_Inr:
  "(\<And>x. x \<in> set xs \<Longrightarrow> f x = Inr (g x)) \<Longrightarrow> map_result f xs = Inr (map g xs)"
  by (induction xs) simp_all

lemma map_result_Inr_D:
  "map_result f xs = Inr ys \<Longrightarrow> list_all2 (\<lambda>x y. f x = Inr y) xs ys"
  by (induction xs arbitrary: ys) (auto split: sum.splits)

lemma nesting_list_elem: "x \<in> set xs \<Longrightarrow> nesting x < nesting (PyList xs)"
  by (induction xs) (auto simp: less_Suc_eq_le max_def)

lemma nesting_dict_elem: "(k, x) \<in> set kvs \<Longrightarrow> nesting x < nesting (PyDict kvs)"
  by (induction kvs) (auto simp: less_Suc_eq_le max_def)

lemma sanitize_within_enough:
  "nesting v < n \<Longrightarrow> sanitize_within n v = Inr (simulate_swift_sanitize v)"
proof (induction n arbitrary: v)
  case 0
  then show ?case by simp
next
  case (Suc n)
  show ?case
  proof (cases v)
    case (PyDict kvs)
    have "map_result (\<lambda>(key, val). case sanitize_within n val of
              Inl e \<Rightarrow> Inl e | Inr r \<Rightarrow> Inr (key, r)) kvs =
          Inr (map (\<lambda>(key, val). (key, simulate_swift_sanitize val)) kvs)"
    proof (rule map_result_Inr)
      fix x assume x: "x \<in> set kvs"
      obtain k w where kw: "x = (k, w)" by (cases x)
      with x have "(k, w) \<in> set kvs" by simp
      then have "nesting w < nesting (PyDict kvs)" by (rule nesting_dict_elem)
      with Suc.prems PyDict have "nesting w < n" by simp
      then have "sanitize_within n w = Inr (simulate_swift_sanitize w)" by (rule Suc.IH)
      with kw show "(case x of (key, val) \<Rightarrow> case sanitize_within n val of
              Inl e \<Rightarrow> Inl e | Inr r \<Rightarrow> Inr (key, r)) =
          Inr (case x of (key, val) \<Rightarrow> (key, simulate_swift_sanitize val))" by simp
    qed
    with PyDict show ?thesis by simp
  next
    case (PyList xs)
    have "map_result (sanitize_within n) xs = Inr (map simulate_swift_sanitize xs)"
    proof (rule map_result_Inr)
      fix x assume "x \<in> set xs"
      then have "nesting x < nesting (PyList xs)" by (rule nesting_list_elem)
      with Suc.prems PyList have "nesting x < n" by simp
      then show "sanitize_within n x = Inr (simulate_swift_sanitize x)" by (rule Suc.IH)
    qed
    with PyList show ?thesis by simp
  qed simp_all
qed

lemma sanitize_within_result:
  "sanitize_within n v = Inr r \<Longrightarrow> r = simulate_swift_sanitize v"
proof (induction n arbitrary: v r)
  case 0
  then show ?case by simp
next
  case (Suc n)
  show ?case
  proof (cases v)
    case (PyDict kvs)
    with Suc.prems obtain items where
      m: "map_result (\<lambda>(key, val). case sanitize_within n val of
              Inl e \<Rightarrow> Inl e | Inr r \<Rightarrow> Inr (key, r)) kvs = Inr items" and r: "r = PyDict items"
      by (auto split: sum.splits)
    from map_result_Inr_D [OF m]
    have "list_all2 (\<lambda>x y. y = (case x of (key, val) \<Rightarrow> (key, simulate_swift_sanitize val))) kvs items"
      by (rule list_all2_mono) (auto split: sum.splits dest: Suc.IH)
    then have "items = map (\<lambda>(key, val). (key, simulate_swift_sanitize val)) kvs"
      by (induction kvs items rule: list_all2_induct) simp_all
    with r PyDict show ?thesis by simp
  next
    case (PyList xs)
    with Suc.prems obtain items where
      m: "map_result (sanitize_within n) xs = Inr items" and r: "r = PyList items"
      by (auto split: sum.splits)
    from map_result_Inr_D [OF m]
    have "list_all2 (\<lambda>x y. y = simulate_swift_sanitize x) xs items"
      by (rule list_all2_mono) (auto dest: Suc.IH)
    then have "items = map simulate_swift_sanitize xs"
      by (induction xs items rule: list_all2_induct) simp_all
    with r PyList show ?thesis by simp
  qed (use Suc.prems in auto)
qed

lemma sanitize_within_error:
  "sanitize_within n v = Inl e \<Longrightarrow> n \<le> nesting v"
  using sanitize_within_enough [of v n] by (cases "nesting v < n") simp_all


text \<open>
  Claim C7. Every value of the datatype is a finite tree without cycles, and the function
  is defined on all of them by structural recursion. With the call stack made explicit:
  whatever the nesting depth of \<open>v\<close>, a stack of one call more than that depth is enough
  for the call to return, without error, the result of \<open>simulate_swift_sanitize\<close>, and so
  is every larger one.
\<close>

theorem sanitize_total:
  "sanitize_within (Suc (nesting v)) v = Inr (simulate_swift_sanitize v) \<and>
   (nesting v < n \<longrightarrow> sanitize_within n v = Inr (simulate_swift_sanitize v))"
  by (simp add: sanitize_within_enough)

theorem sanitize_total_witness:
  "nesting (PyDict [(PyStr ''items'', PyList [PyBytes [97, 98], PyDict [(PyStr ''n'', PyNone)]])])
     < Suc (Suc (Suc (Suc 0))) \<and>
   sanitize_within (Suc (Suc (Suc (Suc 0))))
     (PyDict [(PyStr ''items'', PyList [PyBytes [97, 98], PyDict [(PyStr ''n'', PyNone)]])]) =
   Inr (PyDict [(PyStr ''items'', PyList [PyStr ''YWI='', PyDict [(PyStr ''n'', PyNone)]])])"
  using sanitize_total
    [of "PyDict [(PyStr ''items'', PyList [PyBytes [97, 98], PyDict [(PyStr ''n'', PyNone)]])]"
        "Suc (Suc (Suc (Suc 0)))"]
  by (simp add: b64_char_def b64_alphabet_def)

subsection \<open>Determinism\<close>


















end
